theory Spec2Isabelle
  imports Main "HOL-Library.Word"
begin

section \<open>The ngalert service: constants, construction and start-up\<close>

text \<open>
  The Go package \<open>ngalert\<close> wires the alerting components together. The model keeps the
  fields of the structs that the start-up code reads or writes. Collaborators that live
  in other packages (the notifier, the scheduler, the state manager, the API) appear as
  the calls made to them, recorded in order in a call log, and as the values they return,
  supplied by the environment.
\<close>

text \<open>A Go \<open>error\<close> value; \<open>nil\<close> is \<open>None\<close> of \<open>error option\<close>.\<close>

datatype error = Err string

text \<open>\<open>time.Duration\<close> and \<open>int64\<close>: 64-bit signed integers, read with \<open>sint\<close>.\<close>

type_synonym int64 = "64 word"
type_synonym Duration = "64 word"

definition Second :: Duration where
  "Second = 1000000000"

definition maxAttempts :: int64 where
  "maxAttempts = 3"

definition defaultBaseIntervalSeconds :: int64 where
  "defaultBaseIntervalSeconds = 10"

definition defaultIntervalSeconds :: int64 where
  "defaultIntervalSeconds = 6 * defaultBaseIntervalSeconds"

text \<open>
  \<open>setting.Cfg\<close>, restricted to what the service reads. \<open>IsNgAlertEnabled\<close> is a method
  of \<open>setting.Cfg\<close> declared outside this package; its result is a field here.
\<close>

record Cfg =
  AlertingBaseInterval :: Duration
  AdminConfigPollInterval :: Duration
  AppURL :: string
  IsNgAlertEnabled :: bool

record DBstore =
  BaseInterval :: Duration
  DefaultIntervalSeconds :: int64

record SchedulerCfg =
  sch_BaseInterval :: Duration
  sch_MaxAttempts :: int64
  sch_Store :: DBstore
  sch_AdminConfigPollInterval :: Duration

text \<open>
  \<open>AlertNG\<close>: a pointer field that is \<open>nil\<close> is \<open>None\<close>. The scheduler is represented by
  the configuration it was built from, the state manager and the multi-org Alertmanager
  by the store they were built over.
\<close>

record AlertNG =
  ng_Cfg :: "Cfg option"
  schedule :: "SchedulerCfg option"
  stateManager :: "DBstore option"
  MultiOrgAlertmanager :: "DBstore option"

text \<open>Calls to collaborators outside the package, in the order they are made.\<close>

datatype call =
    NewMultiOrgAlertmanager
  | LoadAndSyncAlertmanagersForOrgs
  | NewManager
  | NewScheduler
  | RegisterAPIEndpoints

text \<open>
  The environment of start-up: what \<open>LoadAndSyncAlertmanagersForOrgs\<close> returns, and the
  calls made so far.
\<close>

record world =
  sync_result :: "error option"
  calls :: "call list"

definition do_call :: "call \<Rightarrow> world \<Rightarrow> world" where
  "do_call c w = w\<lparr>calls := calls w @ [c]\<rparr>"

text \<open>A Go call either returns or panics (a nil pointer dereference).\<close>

datatype 'a go = Panic | Ret 'a

definition IsDisabled :: "AlertNG \<Rightarrow> bool" where
  "IsDisabled ng =
     (case ng_Cfg ng of
        None \<Rightarrow> True
      | Some cfg \<Rightarrow> \<not> IsNgAlertEnabled cfg)"

text \<open>
  The base interval computed at the head of \<open>init\<close>: the configured value, or the default
  when that is not positive, multiplied by \<open>time.Second\<close> (in 64-bit arithmetic).
\<close>

definition init_baseInterval :: "Cfg \<Rightarrow> Duration" where
  "init_baseInterval cfg =
     (let baseInterval = AlertingBaseInterval cfg;
          baseInterval = (if sint baseInterval \<le> 0 then defaultBaseIntervalSeconds else baseInterval)
      in baseInterval * Second)"

definition init :: "AlertNG \<Rightarrow> world \<Rightarrow> (error option \<times> AlertNG \<times> world) go" where
  "init ng w =
     (case ng_Cfg ng of
        None \<Rightarrow> Panic
      | Some cfg \<Rightarrow>
          let baseInterval = init_baseInterval cfg;
              store = \<lparr>BaseInterval = baseInterval, DefaultIntervalSeconds = defaultIntervalSeconds\<rparr>;
              ng = ng\<lparr>MultiOrgAlertmanager := Some store\<rparr>;
              w = do_call NewMultiOrgAlertmanager w;
              w = do_call LoadAndSyncAlertmanagersForOrgs w
          in (case sync_result w of
                Some err \<Rightarrow> Ret (Some err, ng, w)
              | None \<Rightarrow>
                  let schedCfg = \<lparr>sch_BaseInterval = baseInterval,
                                  sch_MaxAttempts = maxAttempts,
                                  sch_Store = store,
                                  sch_AdminConfigPollInterval = AdminConfigPollInterval cfg\<rparr>;
                      w = do_call NewManager w;
                      w = do_call NewScheduler w;
                      ng = ng\<lparr>stateManager := Some store\<rparr>;
                      ng = ng\<lparr>schedule := Some schedCfg\<rparr>;
                      w = do_call RegisterAPIEndpoints w
                  in Ret (None, ng, w)))"

text \<open>
  \<open>ProvideService\<close> returns the pair \<open>(*AlertNG, error)\<close>; the other constructor
  arguments are stored in fields the model leaves out.
\<close>

definition ProvideService :: "Cfg option \<Rightarrow> world \<Rightarrow> ((AlertNG option \<times> error option) \<times> world) go" where
  "ProvideService cfg w =
     (let ng = \<lparr>ng_Cfg = cfg, schedule = None, stateManager = None, MultiOrgAlertmanager = None\<rparr>
      in if IsDisabled ng then Ret ((Some ng, None), w)
         else (case init ng w of
                 Panic \<Rightarrow> Panic
               | Ret (Some err, ng', w') \<Rightarrow> Ret ((None, Some err), w')
               | Ret (None, ng', w') \<Rightarrow> Ret ((Some ng', None), w')))"

text \<open>The service value \<open>ProvideService\<close> allocates before anything is initialised.\<close>

definition new_service :: "Cfg option \<Rightarrow> AlertNG" where
  "new_service cfg = \<lparr>ng_Cfg = cfg, schedule = None, stateManager = None, MultiOrgAlertmanager = None\<rparr>"

section \<open>Run: warming the state, the two loops and the join\<close>

text \<open>
  \<open>Run\<close> calls \<open>stateManager.Warm()\<close>, makes an \<open>errgroup\<close> with a context derived from
  \<open>ctx\<close>, starts \<open>schedule.Run(subCtx)\<close> and \<open>MultiOrgAlertmanager.Run(subCtx)\<close> in the group
  and returns what the group's \<open>Wait\<close> returns. The two loops run concurrently with each
  other and with the caller, so \<open>Run\<close> is a transition system: the program counter of
  \<open>Run\<close> itself, the status of the two goroutines, and the context. An execution is a
  list of events, each one statement of \<open>Run\<close> or one move of a goroutine or of the
  caller; an event that is not enabled in a state has no successor.

  \<open>Warm()\<close> is an ordinary call: the statement after it runs once it has returned.
  The loops themselves are in other packages. What the model takes from them is their
  contract: a loop started with a context may dispatch work while the context is live,
  and may return, with an error or \<open>nil\<close>, at any moment. The group follows the
  \<open>errgroup\<close> package: the first non-nil error a function returns is recorded and
  cancels the derived context, and \<open>Wait\<close> returns that error once every function
  started with \<open>Go\<close> has returned.
\<close>

datatype goroutine = NotStarted | Running | Returned "error option"

datatype pc = AtStart | Warmed | SchedulerStarted | Waiting | RunReturned "error option"

record run_state =
  pc :: pc
  warm_calls :: nat
  scheduler :: goroutine
  alertmanager :: goroutine
  ctx_cancelled :: bool
  group_err :: "error option"
  group_cancelled :: bool
  ticks :: nat
  syncs :: nat

definition run_start :: run_state where
  "run_start = \<lparr>pc = AtStart, warm_calls = 0, scheduler = NotStarted, alertmanager = NotStarted,
                 ctx_cancelled = False, group_err = None, group_cancelled = False,
                 ticks = 0, syncs = 0\<rparr>"

text \<open>\<open>subCtx\<close> is done when its parent is cancelled or the group has cancelled it.\<close>

definition subCtx_done :: "run_state \<Rightarrow> bool" where
  "subCtx_done s = (ctx_cancelled s \<or> group_cancelled s)"

fun has_returned :: "goroutine \<Rightarrow> bool" where
  "has_returned (Returned r) = True"
| "has_returned g = False"

text \<open>What the group does when one of its functions returns \<open>r\<close>.\<close>

definition group_done :: "error option \<Rightarrow> run_state \<Rightarrow> run_state" where
  "group_done r s =
     (case r of
        None \<Rightarrow> s
      | Some e \<Rightarrow>
          (case group_err s of
             None \<Rightarrow> s\<lparr>group_err := Some e, group_cancelled := True\<rparr>
           | Some e' \<Rightarrow> s))"

datatype event =
    Statement
  | Cancel
  | SchedulerTick
  | SchedulerReturns "error option"
  | AlertmanagerSync
  | AlertmanagerReturns "error option"

fun step :: "event \<Rightarrow> run_state \<Rightarrow> run_state option" where
  "step Statement s =
     (case pc s of
        AtStart \<Rightarrow> Some (s\<lparr>warm_calls := warm_calls s + 1, pc := Warmed\<rparr>)
      | Warmed \<Rightarrow> Some (s\<lparr>scheduler := Running, pc := SchedulerStarted\<rparr>)
      | SchedulerStarted \<Rightarrow> Some (s\<lparr>alertmanager := Running, pc := Waiting\<rparr>)
      | Waiting \<Rightarrow>
          (if has_returned (scheduler s) \<and> has_returned (alertmanager s)
           then Some (s\<lparr>group_cancelled := True, pc := RunReturned (group_err s)\<rparr>)
           else None)
      | RunReturned r \<Rightarrow> None)"
| "step Cancel s =
     (if ctx_cancelled s then None else Some (s\<lparr>ctx_cancelled := True\<rparr>))"
| "step SchedulerTick s =
     (if scheduler s = Running \<and> \<not> subCtx_done s then Some (s\<lparr>ticks := ticks s + 1\<rparr>) else None)"
| "step (SchedulerReturns r) s =
     (if scheduler s = Running then Some (group_done r (s\<lparr>scheduler := Returned r\<rparr>)) else None)"
| "step AlertmanagerSync s =
     (if alertmanager s = Running \<and> \<not> subCtx_done s then Some (s\<lparr>syncs := syncs s + 1\<rparr>) else None)"
| "step (AlertmanagerReturns r) s =
     (if alertmanager s = Running then Some (group_done r (s\<lparr>alertmanager := Returned r\<rparr>)) else None)"

fun run :: "event list \<Rightarrow> run_state \<Rightarrow> run_state option" where
  "run [] s = Some s"
| "run (e # es) s = (case step e s of None \<Rightarrow> None | Some s' \<Rightarrow> run es s')"

text \<open>The statements \<open>Run\<close> has left, plus the goroutines that have not returned.\<close>

fun statements_left :: "pc \<Rightarrow> nat" where
  "statements_left AtStart = 4"
| "statements_left Warmed = 3"
| "statements_left SchedulerStarted = 2"
| "statements_left Waiting = 1"
| "statements_left (RunReturned r) = 0"

definition work_left :: "run_state \<Rightarrow> nat" where
  "work_left s =
     statements_left (pc s)
     + (if has_returned (scheduler s) then 0 else 1)
     + (if has_returned (alertmanager s) then 0 else 1)"

text \<open>The invariant of \<open>Run\<close>: what each program point knows about the goroutines and the group.\<close>

definition run_inv :: "run_state \<Rightarrow> bool" where
  "run_inv s =
     ((case pc s of
         AtStart \<Rightarrow> warm_calls s = 0 \<and> scheduler s = NotStarted \<and> alertmanager s = NotStarted
                      \<and> ticks s = 0 \<and> syncs s = 0
       | Warmed \<Rightarrow> warm_calls s = 1 \<and> scheduler s = NotStarted \<and> alertmanager s = NotStarted
                      \<and> ticks s = 0 \<and> syncs s = 0
       | SchedulerStarted \<Rightarrow> warm_calls s = 1 \<and> scheduler s \<noteq> NotStarted
                      \<and> alertmanager s = NotStarted \<and> syncs s = 0
       | Waiting \<Rightarrow> warm_calls s = 1 \<and> scheduler s \<noteq> NotStarted \<and> alertmanager s \<noteq> NotStarted
       | RunReturned r \<Rightarrow> warm_calls s = 1 \<and> has_returned (scheduler s)
                      \<and> has_returned (alertmanager s) \<and> r = group_err s)
      \<and> (group_err s = None) =
          (scheduler s \<notin> range (Returned \<circ> Some) \<and> alertmanager s \<notin> range (Returned \<circ> Some))
      \<and> (group_err s \<noteq> None \<longrightarrow>
            scheduler s = Returned (group_err s) \<or> alertmanager s = Returned (group_err s))
      \<and> (group_err s \<noteq> None \<longrightarrow> group_cancelled s))"

section \<open>The state machine of an alert instance\<close>

text \<open>
  Modelled from the spec: the State Manager (package \<open>state\<close>) is not among the sources;
  the service only constructs it. The states, the verdicts, the no-data policy and the
  transitions below follow section 4.3 of the specification, row by row, with the
  fan-out invocation each row names.
\<close>

datatype alert_state = Normal | Pending | Alerting | NoData | Error

datatype verdict = VFiring | VNormal | VNoData | VError

datatype policy = TreatAsAlerting | TreatAsNormal | TreatAsError | KeepLastState

datatype fanout = Fires | Resolved

record alert_rule =
  pendingDuration :: nat
  noDataPolicy :: policy

record alert_instance =
  state :: alert_state
  entered :: nat
  lastEvaluation :: nat

definition enter :: "alert_state \<Rightarrow> nat \<Rightarrow> alert_instance \<Rightarrow> alert_instance" where
  "enter st now i = i\<lparr>state := st, entered := now, lastEvaluation := now\<rparr>"

definition refresh :: "nat \<Rightarrow> alert_instance \<Rightarrow> alert_instance" where
  "refresh now i = i\<lparr>lastEvaluation := now\<rparr>"

text \<open>
  Modelled from the spec: the rows for a Firing verdict. \<open>Normal\<close> goes to \<open>Pending\<close>
  and timestamps the entry; \<open>Pending\<close> goes to \<open>Alerting\<close> once the pending duration has
  elapsed since that entry and the fan-out fires, otherwise only the last-evaluation
  timestamp is refreshed; \<open>Alerting\<close> is re-affirmed, and the state machine invokes
  nothing (what the fan-out re-sends by its own policy is external). \<open>NoData\<close> and
  \<open>Error\<close> recover by the same rule as \<open>Normal\<close>. Time does not run backwards: the
  difference of two timestamps is taken in the natural numbers.
\<close>

fun on_firing :: "alert_rule \<Rightarrow> alert_instance \<Rightarrow> nat \<Rightarrow> alert_instance \<times> fanout list" where
  "on_firing r i now =
     (case state i of
        Pending \<Rightarrow>
          (if pendingDuration r \<le> now - entered i then (enter Alerting now i, [Fires])
           else (refresh now i, []))
      | Alerting \<Rightarrow> (refresh now i, [])
      | _ \<Rightarrow> (enter Pending now i, []))"

text \<open>
  Modelled from the spec: the rows for a Normal verdict. \<open>Pending\<close> returns to
  \<open>Normal\<close> without notification, \<open>Alerting\<close> returns to \<open>Normal\<close> and the fan-out
  resolves.
\<close>

fun on_normal :: "alert_instance \<Rightarrow> nat \<Rightarrow> alert_instance \<times> fanout list" where
  "on_normal i now =
     (case state i of
        Normal \<Rightarrow> (refresh now i, [])
      | Alerting \<Rightarrow> (enter Normal now i, [Resolved])
      | _ \<Rightarrow> (enter Normal now i, []))"

text \<open>
  Modelled from the spec: an Error or NoData verdict is mapped by the rule's policy: to
  a Firing or a Normal verdict, to the \<open>Error\<close> or \<open>NoData\<close> state, or the state is kept.
\<close>

fun on_failure :: "alert_state \<Rightarrow> alert_rule \<Rightarrow> alert_instance \<Rightarrow> nat \<Rightarrow> alert_instance \<times> fanout list" where
  "on_failure target r i now =
     (case noDataPolicy r of
        TreatAsAlerting \<Rightarrow> on_firing r i now
      | TreatAsNormal \<Rightarrow> on_normal i now
      | TreatAsError \<Rightarrow> (if state i = target then (refresh now i, []) else (enter target now i, []))
      | KeepLastState \<Rightarrow> (refresh now i, []))"

fun transition :: "alert_rule \<Rightarrow> alert_instance \<Rightarrow> verdict \<Rightarrow> nat \<Rightarrow> alert_instance \<times> fanout list" where
  "transition r i VFiring now = on_firing r i now"
| "transition r i VNormal now = on_normal i now"
| "transition r i VNoData now = on_failure NoData r i now"
| "transition r i VError now = on_failure Error r i now"

text \<open>A step crosses the boundary when it enters \<open>Alerting\<close> from \<open>Normal\<close> or \<open>Pending\<close>, or leaves it for \<open>Normal\<close>.\<close>

definition crosses :: "alert_state \<Rightarrow> alert_state \<Rightarrow> bool" where
  "crosses a b = ((a = Normal \<or> a = Pending) \<and> b = Alerting \<or> a = Alerting \<and> b = Normal)"

section \<open>The evaluation task and its retry budget\<close>

text \<open>
  Modelled from the spec: the Scheduler (package \<open>schedule\<close>) is not among the sources;
  the service passes it \<open>maxAttempts\<close>. Per section 4.1 an evaluation task retries the
  query execution up to \<open>maxAttempts\<close> times, one attempt after the other, and reports an
  Error verdict once the attempts are exhausted. \<open>execute n\<close> is what attempt \<open>n\<close>
  (counted from 1) yields: \<open>None\<close> when the execution fails, the Evaluator's verdict
  otherwise. The result is the verdict reported and the number of attempts made.
\<close>

fun retry :: "(nat \<Rightarrow> verdict option) \<Rightarrow> nat \<Rightarrow> nat \<Rightarrow> verdict option \<times> nat" where
  "retry execute 0 made = (None, made)"
| "retry execute (Suc remaining) made =
     (case execute (Suc made) of
        Some v \<Rightarrow> (Some v, Suc made)
      | None \<Rightarrow> retry execute remaining (Suc made))"

definition evaluation_task :: "nat \<Rightarrow> (nat \<Rightarrow> verdict option) \<Rightarrow> verdict \<times> nat" where
  "evaluation_task budget execute =
     (case retry execute budget 0 of
        (Some v, made) \<Rightarrow> (v, made)
      | (None, made) \<Rightarrow> (VError, made))"

text \<open>
  Modelled from the spec: one tick dispatches one evaluation task per due rule, and every
  task hands its verdict to the State Manager. \<open>executions uid\<close> is the behaviour of the
  query execution for rule \<open>uid\<close>.
\<close>

definition tick_verdicts :: "nat \<Rightarrow> (string \<Rightarrow> nat \<Rightarrow> verdict option) \<Rightarrow> string list \<Rightarrow> (string \<times> verdict) list" where
  "tick_verdicts budget executions uids =
     map (\<lambda>uid. (uid, fst (evaluation_task budget (executions uid)))) uids"

text \<open>The budget the scheduler is configured with: \<open>MaxAttempts\<close> of its configuration.\<close>

definition attempt_budget :: "SchedulerCfg \<Rightarrow> nat" where
  "attempt_budget c = (if sint (sch_MaxAttempts c) \<le> 0 then 0 else unat (sch_MaxAttempts c))"

section \<open>The running service and the failures inside its loops\<close>








section \<open>Query hints of the Prometheus data source\<close>

text \<open>
  A JavaScript string is a sequence of UTF-16 code units, here natural numbers;
  \<open>js\<close> turns an ASCII literal into one.
\<close>

type_synonym jsstring = "nat list"

definition js :: "string \<Rightarrow> jsstring" where
  "js s = map of_char s"

text \<open>An exception thrown while the hints are computed.\<close>

datatype js_error = TypeError | SyntaxError | Thrown jsstring

text \<open>\<open>\w\<close> of a regular expression without flags: \<open>[A-Za-z0-9_]\<close>.\<close>

definition is_word_char :: "nat \<Rightarrow> bool" where
  "is_word_char c = (48 \<le> c \<and> c \<le> 57 \<or> 65 \<le> c \<and> c \<le> 90 \<or> c = 95 \<or> 97 \<le> c \<and> c \<le> 122)"

text \<open>The code units \<open>String.prototype.trim\<close> strips: white space and line terminators.\<close>

definition is_trimmed_char :: "nat \<Rightarrow> bool" where
  "is_trimmed_char c =
     (c \<in> {9, 10, 11, 12, 13, 32, 160, 5760, 8232, 8233, 8239, 8287, 12288, 65279}
      \<or> 8192 \<le> c \<and> c \<le> 8202)"

definition trim :: "jsstring \<Rightarrow> jsstring" where
  "trim s = rev (dropWhile is_trimmed_char (rev (dropWhile is_trimmed_char s)))"

text \<open>\<open>s.indexOf(sub) !== -1\<close>.\<close>

fun js_includes :: "jsstring \<Rightarrow> jsstring \<Rightarrow> bool" where
  "js_includes sub [] = (sub = [])"
| "js_includes sub (c # cs) = (take (length sub) (c # cs) = sub \<or> js_includes sub cs)"

definition ends_with :: "jsstring \<Rightarrow> jsstring \<Rightarrow> bool" where
  "ends_with suffix s = (length suffix \<le> length s \<and> drop (length s - length suffix) s = suffix)"

text \<open>
  \<open>/^\w+$/\<close>: one word character, then as many as there are, then the end of the
  string. The result of \<open>match\<close> is only tested for being \<open>null\<close>.
\<close>

definition match_simple_metric :: "jsstring \<Rightarrow> bool" where
  "match_simple_metric s =
     (case s of
        [] \<Rightarrow> False
      | c # cs \<Rightarrow> is_word_char c \<and> dropWhile is_word_char cs = [])"

text \<open>\<open>/^\w+_bucket$/\<close>: a simple metric of at least one character followed by \<open>_bucket\<close>.\<close>

definition match_histogram_metric :: "jsstring \<Rightarrow> bool" where
  "match_histogram_metric s =
     (ends_with (js ''_bucket'') s \<and> match_simple_metric (take (length s - 7) s))"

text \<open>The maximal runs of word characters of a string, from left to right.\<close>

function word_runs :: "jsstring \<Rightarrow> jsstring list" where
  "word_runs [] = []"
| "word_runs (c # cs) =
     (if is_word_char c
      then (c # takeWhile is_word_char cs) # word_runs (dropWhile is_word_char cs)
      else word_runs cs)"
  by pat_completeness auto
termination
  by (relation "measure length") (auto intro: le_imp_less_Suc length_dropWhile_le)

text \<open>
  \<open>/\b(\w+_(total|sum|count))\b/\<close>: between two word boundaries only word characters
  are matched, so a match is a whole run of word characters that ends in one of the
  three suffixes after at least one more character; the first such run is group 1.
\<close>

definition is_counter_name :: "jsstring \<Rightarrow> bool" where
  "is_counter_name w =
     (\<exists>suffix \<in> set [js ''_total'', js ''_sum'', js ''_count''].
        length suffix < length w \<and> ends_with suffix w)"

definition match_counter_name :: "jsstring \<Rightarrow> jsstring option" where
  "match_counter_name query = find is_counter_name (word_runs query)"

text \<open>
  What the function uses and does not define: regular expressions built at run time
  from a metric or rule name (\<open>regexp_search source subject\<close> is whether the expression
  with that source matches somewhere in the subject; building it can throw),
  \<open>toLowerCase\<close>, \<open>rangeUtil.intervalToSeconds\<close>, and JavaScript numbers, of type \<open>'n\<close>,
  with their truthiness, their order and their conversion to a string.
\<close>

record 'n externals =
  regexp_search :: "jsstring \<Rightarrow> jsstring \<Rightarrow> js_error + bool"
  toLowerCase :: "jsstring \<Rightarrow> jsstring"
  intervalToSeconds :: "jsstring \<Rightarrow> js_error + 'n"
  number_zero :: 'n
  number_truthy :: "'n \<Rightarrow> bool"
  number_less :: "'n \<Rightarrow> 'n \<Rightarrow> bool"
  number_to_string :: "'n \<Rightarrow> jsstring"

record PromQuery =
  expr :: "jsstring option"
  interval :: "jsstring option"
  stepMode :: "jsstring option"

record metadata =
  md_type :: jsstring

text \<open>
  \<open>PrometheusDatasource\<close>, as far as the hints read it. An object is the list of its
  keys with their values, in the order \<open>Object.keys\<close> enumerates them;
  \<open>metricsMetadata\<close> is \<open>None\<close> when \<open>languageProvider\<close> or its \<open>metricsMetadata\<close> is
  missing, \<open>ruleMappings\<close> when it is falsy.
\<close>

record ('n, 't) PrometheusDatasource =
  metricsMetadata :: "(jsstring \<times> metadata list) list option"
  ruleMappings :: "(jsstring \<times> jsstring) list option"
  getRange :: "'t \<Rightarrow> js_error + 'n option"
  getSafeInterval :: "'n \<Rightarrow> js_error + 'n"

record QueryAction =
  action_type :: jsstring
  action_query :: jsstring
  preventSubmit :: "bool option"
  action_mapping :: "(jsstring \<times> jsstring) list option"

record QueryFix =
  fix_label :: jsstring
  fix_action :: QueryAction

record QueryHint =
  hint_type :: jsstring
  hint_label :: jsstring
  hint_fix :: "QueryFix option"

definition SUM_HINT_THRESHOLD_COUNT :: nat where
  "SUM_HINT_THRESHOLD_COUNT = 20"

definition then_do :: "js_error + 'a \<Rightarrow> ('a \<Rightarrow> js_error + 'b) \<Rightarrow> js_error + 'b" where
  "then_do m f = (case m of Inl e \<Rightarrow> Inl e | Inr x \<Rightarrow> f x)"

definition query_of :: "PromQuery \<Rightarrow> jsstring" where
  "query_of promQuery = (case expr promQuery of None \<Rightarrow> [] | Some e \<Rightarrow> e)"

definition histogram_hints :: "jsstring \<Rightarrow> QueryHint list" where
  "histogram_hints query =
     (if match_histogram_metric (trim query)
      then [\<lparr>hint_type = js ''HISTOGRAM_QUANTILE'',
             hint_label = js ''Time series has buckets, you probably wanted a histogram.'',
             hint_fix = Some \<lparr>fix_label = js ''Fix by adding histogram_quantile().'',
                              fix_action = \<lparr>action_type = js ''ADD_HISTOGRAM_QUANTILE'',
                                            action_query = query,
                                            preventSubmit = None,
                                            action_mapping = None\<rparr>\<rparr>\<rparr>]
      else [])"

text \<open>
  The callback of \<open>metricMetadataKeys.find\<close>, run over the keys in order: the first
  metric whose first metadata entry is of type counter and whose name, between word
  boundaries, occurs in the query. Reading \<open>type\<close> of a missing first entry throws.
\<close>

fun find_counter :: "'n externals \<Rightarrow> jsstring \<Rightarrow> (jsstring \<times> metadata list) list \<Rightarrow> js_error + jsstring option" where
  "find_counter X query [] = Inr None"
| "find_counter X query ((metricName, mds) # rest) =
     (case mds of
        [] \<Rightarrow> Inl TypeError
      | md # _ \<Rightarrow>
          if toLowerCase X (md_type md) = js ''counter''
          then then_do (regexp_search X (js [CHR 0x5C, CHR ''b''] @ metricName @ js [CHR 0x5C, CHR ''b'']) query)
                 (\<lambda>found. if found then Inr (Some metricName) else find_counter X query rest)
          else find_counter X query rest)"

definition rate_hints :: "'n externals \<Rightarrow> jsstring \<Rightarrow> ('n, 't) PrometheusDatasource option \<Rightarrow> js_error + QueryHint list" where
  "rate_hints X query datasource =
     (if \<not> js_includes (js ''rate('') query \<and> \<not> js_includes (js ''increase('') query
      then
        let counterNameMetric = (case match_counter_name query of Some m \<Rightarrow> m | None \<Rightarrow> []);
            metricsMetadata = (case datasource of
                                 None \<Rightarrow> []
                               | Some ds \<Rightarrow> (case metricsMetadata ds of None \<Rightarrow> [] | Some m \<Rightarrow> m))
        in then_do
             (if metricsMetadata \<noteq> []
              then then_do (find_counter X query metricsMetadata)
                     (\<lambda>found. case found of
                                 Some m \<Rightarrow> Inr (m, True)
                               | None \<Rightarrow> Inr ([], False))
              else Inr (counterNameMetric, False))
             (\<lambda>(counterNameMetric, certain).
                if counterNameMetric \<noteq> []
                then
                  let simpleMetric = match_simple_metric (trim query);
                      verb = (if certain then js ''is'' else js ''looks like'');
                      label = js ''Metric '' @ counterNameMetric @ js '' '' @ verb @ js '' a counter.''
                  in Inr [\<lparr>hint_type = js ''APPLY_RATE'',
                           hint_label = (if simpleMetric then label
                                         else label @ js '' Try applying a rate() function.''),
                           hint_fix = (if simpleMetric
                                       then Some \<lparr>fix_label = js ''Fix by adding rate().'',
                                                  fix_action = \<lparr>action_type = js ''ADD_RATE'',
                                                                action_query = query,
                                                                preventSubmit = None,
                                                                action_mapping = None\<rparr>\<rparr>
                                       else None)\<rparr>]
                else Inr [])
      else Inr [])"

text \<open>The \<open>reduce\<close> over the rule names: the rules whose name, as a regular expression, is found in the query.\<close>

fun rules_in_query :: "'n externals \<Rightarrow> jsstring \<Rightarrow> (jsstring \<times> jsstring) list \<Rightarrow> js_error + (jsstring \<times> jsstring) list" where
  "rules_in_query X query [] = Inr []"
| "rules_in_query X query ((ruleName, rule) # rest) =
     then_do (regexp_search X ruleName query)
       (\<lambda>found. then_do (rules_in_query X query rest)
          (\<lambda>acc. Inr (if found then (ruleName, rule) # acc else acc)))"

definition rules_hints :: "'n externals \<Rightarrow> jsstring \<Rightarrow> ('n, 't) PrometheusDatasource option \<Rightarrow> js_error + QueryHint list" where
  "rules_hints X query datasource =
     (case datasource of
        None \<Rightarrow> Inr []
      | Some ds \<Rightarrow>
          (case ruleMappings ds of
             None \<Rightarrow> Inr []
           | Some mapping \<Rightarrow>
               then_do (rules_in_query X query mapping)
                 (\<lambda>mappingForQuery.
                    if 0 < length mappingForQuery
                    then Inr [\<lparr>hint_type = js ''EXPAND_RULES'',
                               hint_label = js ''Query contains recording rules.'',
                               hint_fix = Some \<lparr>fix_label = js ''Expand rules'',
                                                fix_action = \<lparr>action_type = js ''EXPAND_RULES'',
                                                              action_query = query,
                                                              preventSubmit = None,
                                                              action_mapping = Some mappingForQuery\<rparr>\<rparr>\<rparr>]
                    else Inr [])))"

definition sum_hints :: "jsstring \<Rightarrow> 'a list option \<Rightarrow> QueryHint list" where
  "sum_hints query series =
     (case series of
        None \<Rightarrow> []
      | Some xs \<Rightarrow>
          if SUM_HINT_THRESHOLD_COUNT \<le> length xs
          then (if match_simple_metric (trim query)
                then [\<lparr>hint_type = js ''ADD_SUM'',
                       hint_label = js ''Many time series results returned.'',
                       hint_fix = Some \<lparr>fix_label = js ''Consider aggregating with sum().'',
                                        fix_action = \<lparr>action_type = js ''ADD_SUM'',
                                                      action_query = query,
                                                      preventSubmit = Some True,
                                                      action_mapping = None\<rparr>\<rparr>\<rparr>]
                else [])
          else [])"

definition safe_interval_label :: "'n externals \<Rightarrow> PromQuery \<Rightarrow> 'n option \<Rightarrow> jsstring" where
  "safe_interval_label X promQuery safeInterval =
     (if stepMode promQuery = Some (js ''exact'')
      then js ''The specified step interval is lower than the safe interval and has been changed to ''
           @ (case safeInterval of None \<Rightarrow> js ''undefined'' | Some n \<Rightarrow> number_to_string X n)
           @ js ''s. Consider increasing the step interval or changing the time range''
      else js ''The specified step interval is lower than the safe interval. Consider increasing the step interval or changing the time range'')"

definition safe_interval_hints :: "'n externals \<Rightarrow> PromQuery \<Rightarrow> ('n, 't) PrometheusDatasource option \<Rightarrow> 't option \<Rightarrow> js_error + QueryHint list" where
  "safe_interval_hints X promQuery datasource timeRange =
     (case timeRange of
        None \<Rightarrow> Inr []
      | Some tr \<Rightarrow>
          then_do (case datasource of
                     None \<Rightarrow> Inr None
                   | Some ds \<Rightarrow>
                       then_do (getRange ds tr)
                         (\<lambda>range. then_do (getSafeInterval ds (case range of None \<Rightarrow> number_zero X | Some n \<Rightarrow> n))
                                     (\<lambda>n. Inr (Some n))))
            (\<lambda>safeInterval.
               then_do (intervalToSeconds X (case interval promQuery of None \<Rightarrow> js ''15s'' | Some i \<Rightarrow> i))
                 (\<lambda>interval.
                    case safeInterval of
                      None \<Rightarrow> Inr []
                    | Some n \<Rightarrow>
                        if number_truthy X n \<and> number_less X interval n
                        then Inr [\<lparr>hint_type = js ''SAFE_INTERVAL'',
                                   hint_label = safe_interval_label X promQuery safeInterval,
                                   hint_fix = None\<rparr>]
                        else Inr [])))"

definition getQueryHints ::
  "'n externals \<Rightarrow> PromQuery \<Rightarrow> 'a list option \<Rightarrow> ('n, 't) PrometheusDatasource option \<Rightarrow> 't option
     \<Rightarrow> js_error + QueryHint list" where
  "getQueryHints X promQuery series datasource timeRange =
     (let query = query_of promQuery;
          hints = histogram_hints query
      in then_do (rate_hints X query datasource)
           (\<lambda>rate. then_do (rules_hints X query datasource)
              (\<lambda>rules.
                 let hints = hints @ rate @ rules @ sum_hints query series
                 in then_do (safe_interval_hints X promQuery datasource timeRange)
                      (\<lambda>safe. Inr (hints @ safe)))))"

section \<open>Concrete inputs\<close>

definition example_cfg :: Cfg where
  "example_cfg = \<lparr>AlertingBaseInterval = 0, AdminConfigPollInterval = 60 * Second,
                   AppURL = ''http://localhost:3000/'', IsNgAlertEnabled = True\<rparr>"

definition healthy_world :: world where
  "healthy_world = \<lparr>sync_result = None, calls = []\<rparr>"

definition failing_world :: world where
  "failing_world = \<lparr>sync_result = Some (Err ''failed to fetch organizations''), calls = []\<rparr>"

text \<open>
  An execution of \<open>Run\<close>: warm, start both loops, one tick and one sync, the caller
  cancels, the scheduler returns \<open>nil\<close> and the Alertmanager the context's error, and
  \<open>Wait\<close> returns.
\<close>

definition example_run :: "event list" where
  "example_run =
     [Statement, Statement, SchedulerTick, Statement, AlertmanagerSync, Cancel,
      SchedulerReturns None, AlertmanagerReturns (Some (Err ''context canceled'')), Statement]"

definition example_rule :: alert_rule where
  "example_rule = \<lparr>pendingDuration = 5, noDataPolicy = KeepLastState\<rparr>"

definition pending_since :: "nat \<Rightarrow> alert_instance" where
  "pending_since t = \<lparr>state = Pending, entered = t, lastEvaluation = t\<rparr>"

text \<open>A query execution that fails twice and then succeeds, and one that always fails.\<close>

definition third_time_lucky :: "nat \<Rightarrow> verdict option" where
  "third_time_lucky n = (if n < 3 then None else Some VFiring)"

definition always_failing :: "nat \<Rightarrow> verdict option" where
  "always_failing n = None"



definition no_externals :: "nat externals" where
  "no_externals =
     \<lparr>regexp_search = (\<lambda>source subject. Inl SyntaxError), toLowerCase = (\<lambda>s. s),
      intervalToSeconds = (\<lambda>s. Inr 15), number_zero = 0, number_truthy = (\<lambda>n. n \<noteq> 0),
      number_less = (<), number_to_string = (\<lambda>n. [])\<rparr>"

definition bare_query :: PromQuery where
  "bare_query = \<lparr>expr = Some (js ''  node_load1 ''), interval = None, stepMode = None\<rparr>"

section \<open>Start-up properties\<close>

lemma init_baseInterval_default:
  "sint (AlertingBaseInterval cfg) \<le> 0 \<Longrightarrow> init_baseInterval cfg = 10 * Second"
  by (simp add: init_baseInterval_def defaultBaseIntervalSeconds_def)

lemma ProvideService_new_service:
  "ProvideService cfg w =
     (if IsDisabled (new_service cfg) then Ret ((Some (new_service cfg), None), w)
      else (case init (new_service cfg) w of
              Panic \<Rightarrow> Panic
            | Ret (Some err, ng', w') \<Rightarrow> Ret ((None, Some err), w')
            | Ret (None, ng', w') \<Rightarrow> Ret ((Some ng', None), w')))"
  by (simp add: ProvideService_def new_service_def)


lemma init_sync_ok:
  "ng_Cfg ng = Some cfg \<Longrightarrow> sync_result w = None \<Longrightarrow>
   init ng w =
     (let store = \<lparr>BaseInterval = init_baseInterval cfg, DefaultIntervalSeconds = defaultIntervalSeconds\<rparr>
      in Ret (None,
          ng\<lparr>MultiOrgAlertmanager := Some store,
             stateManager := Some store,
             schedule := Some \<lparr>sch_BaseInterval = init_baseInterval cfg,
                                  sch_MaxAttempts = maxAttempts,
                                  sch_Store = store,
                                  sch_AdminConfigPollInterval = AdminConfigPollInterval cfg\<rparr>\<rparr>,
          do_call RegisterAPIEndpoints (do_call NewScheduler (do_call NewManager
            (do_call LoadAndSyncAlertmanagersForOrgs (do_call NewMultiOrgAlertmanager w))))))"
  by (simp add: init_def do_call_def Let_def)





text \<open>
  C8. The defaults: a base interval of 10 seconds, taken whenever the configured base
  interval is not positive; a default rule interval of 60 seconds, six times the default
  base interval; at most 3 evaluation attempts. A service started without a positive
  base interval hands exactly these to its store and its scheduler.
\<close>

theorem configuration_defaults:
  "sint defaultBaseIntervalSeconds = 10
   \<and> sint defaultIntervalSeconds = 60
   \<and> sint defaultIntervalSeconds = 6 * sint defaultBaseIntervalSeconds
   \<and> sint maxAttempts = 3
   \<and> (sint (AlertingBaseInterval cfg) \<le> 0 \<longrightarrow>
        init_baseInterval cfg = 10 * Second \<and> sint (init_baseInterval cfg) = 10 * 10 ^ 9)
   \<and> (sint (AlertingBaseInterval cfg) \<le> 0 \<and> IsNgAlertEnabled cfg \<and> sync_result w = None \<longrightarrow>
        (\<exists>ng w'. ProvideService (Some cfg) w = Ret ((Some ng, None), w')
           \<and> schedule ng =
               Some \<lparr>sch_BaseInterval = 10 * Second, sch_MaxAttempts = 3,
                     sch_Store = \<lparr>BaseInterval = 10 * Second, DefaultIntervalSeconds = 60\<rparr>,
                     sch_AdminConfigPollInterval = AdminConfigPollInterval cfg\<rparr>))"
proof (intro conjI impI)
  show "sint defaultBaseIntervalSeconds = 10" by (simp add: defaultBaseIntervalSeconds_def)
  show "sint defaultIntervalSeconds = 60"
    by (simp add: defaultIntervalSeconds_def defaultBaseIntervalSeconds_def)
  show "sint defaultIntervalSeconds = 6 * sint defaultBaseIntervalSeconds"
    by (simp add: defaultIntervalSeconds_def defaultBaseIntervalSeconds_def)
  show "sint maxAttempts = 3" by (simp add: maxAttempts_def)
next
  assume "sint (AlertingBaseInterval cfg) \<le> 0"
  then show "init_baseInterval cfg = 10 * Second" by (rule init_baseInterval_default)
  then show "sint (init_baseInterval cfg) = 10 * 10 ^ 9" by (simp add: Second_def)
next
  assume a: "sint (AlertingBaseInterval cfg) \<le> 0 \<and> IsNgAlertEnabled cfg \<and> sync_result w = None"
  then have "init_baseInterval cfg = 10 * Second" by (simp add: init_baseInterval_default)
  with a show "\<exists>ng w'. ProvideService (Some cfg) w = Ret ((Some ng, None), w')
           \<and> schedule ng =
               Some \<lparr>sch_BaseInterval = 10 * Second, sch_MaxAttempts = 3,
                     sch_Store = \<lparr>BaseInterval = 10 * Second, DefaultIntervalSeconds = 60\<rparr>,
                     sch_AdminConfigPollInterval = AdminConfigPollInterval cfg\<rparr>"
    by (simp add: ProvideService_new_service IsDisabled_def new_service_def init_sync_ok
          maxAttempts_def defaultIntervalSeconds_def defaultBaseIntervalSeconds_def Let_def)
qed

theorem configuration_defaults_witness:
  "sint (AlertingBaseInterval example_cfg) \<le> 0 \<and> IsNgAlertEnabled example_cfg
   \<and> sync_result healthy_world = None
   \<and> init_baseInterval example_cfg = 10000000000
   \<and> (\<exists>ng w'. ProvideService (Some example_cfg) healthy_world = Ret ((Some ng, None), w')
         \<and> schedule ng =
             Some \<lparr>sch_BaseInterval = 10000000000, sch_MaxAttempts = 3,
                   sch_Store = \<lparr>BaseInterval = 10000000000, DefaultIntervalSeconds = 60\<rparr>,
                   sch_AdminConfigPollInterval = 60000000000\<rparr>)"
  using configuration_defaults [of example_cfg healthy_world]
  by (simp add: example_cfg_def healthy_world_def Second_def)

text \<open>
  C9. \<open>IsDisabled\<close> is true when the service has no configuration, and otherwise exactly
  when ng-alert is not enabled in it. For a disabled service \<open>ProvideService\<close> returns
  the freshly allocated service and no error, and makes no call: no Alertmanager is
  created or synced, no scheduler or state manager is built, no API is registered.
\<close>

theorem disabled_service_is_not_initialised:
  "(ng_Cfg ng = None \<longrightarrow> IsDisabled ng)
   \<and> (\<forall>cfg. ng_Cfg ng = Some cfg \<longrightarrow> IsDisabled ng = (\<not> IsNgAlertEnabled cfg))
   \<and> (IsDisabled (new_service cfgo) \<longrightarrow>
        ProvideService cfgo w = Ret ((Some (new_service cfgo), None), w)
        \<and> schedule (new_service cfgo) = None
        \<and> stateManager (new_service cfgo) = None
        \<and> MultiOrgAlertmanager (new_service cfgo) = None)"
  by (simp add: IsDisabled_def ProvideService_new_service) (simp add: new_service_def)

theorem disabled_service_is_not_initialised_witness:
  "IsDisabled (new_service None)
   \<and> ProvideService None failing_world = Ret ((Some (new_service None), None), failing_world)
   \<and> calls failing_world = []
   \<and> IsDisabled (new_service (Some (example_cfg\<lparr>IsNgAlertEnabled := False\<rparr>)))"
  using disabled_service_is_not_initialised [of "new_service None" None failing_world]
    disabled_service_is_not_initialised
      [of "new_service (Some (example_cfg\<lparr>IsNgAlertEnabled := False\<rparr>))" None failing_world]
  by (simp add: new_service_def failing_world_def)

section \<open>Properties of Run\<close>

lemma run_inv_start: "run_inv run_start"
  by (auto simp: run_inv_def run_start_def)

lemma run_inv_step: "run_inv s \<Longrightarrow> step e s = Some s' \<Longrightarrow> run_inv s'"
  by (cases e; cases "pc s")
     (auto simp: run_inv_def group_done_def image_iff split: if_splits option.splits)

lemma run_inv_run: "run_inv s \<Longrightarrow> run es s = Some s' \<Longrightarrow> run_inv s'"
  by (induction es arbitrary: s) (auto split: option.splits dest: run_inv_step)

lemma run_inv_reachable: "run es run_start = Some s \<Longrightarrow> run_inv s"
  by (rule run_inv_run[OF run_inv_start])

lemma step_keeps_cancelled: "ctx_cancelled s \<Longrightarrow> step e s = Some s' \<Longrightarrow> ctx_cancelled s'"
  by (cases e; cases "pc s") (auto simp: group_done_def split: if_splits option.splits)

lemma step_work_left:
  "run_inv s \<Longrightarrow> ctx_cancelled s \<Longrightarrow> step e s = Some s' \<Longrightarrow> work_left s' < work_left s"
  by (cases e; cases "pc s")
     (auto simp: run_inv_def work_left_def subCtx_done_def group_done_def
           split: if_splits option.splits)

lemma stuck_returned:
  assumes inv: "run_inv s" and stuck: "\<forall>e. step e s = None"
  shows "\<exists>r. pc s = RunReturned r"
proof (cases "pc s")
  case AtStart
  from stuck have "step Statement s = None" by blast
  with AtStart show ?thesis by simp
next
  case Warmed
  from stuck have "step Statement s = None" by blast
  with Warmed show ?thesis by simp
next
  case SchedulerStarted
  from stuck have "step Statement s = None" by blast
  with SchedulerStarted show ?thesis by simp
next
  case Waiting
  from stuck have a: "step Statement s = None" and b: "step (SchedulerReturns None) s = None"
    and c: "step (AlertmanagerReturns None) s = None" by blast+
  from b have "scheduler s \<noteq> Running" by (auto split: if_splits)
  moreover from c have "alertmanager s \<noteq> Running" by (auto split: if_splits)
  ultimately have "has_returned (scheduler s) \<and> has_returned (alertmanager s)"
    using inv Waiting by (cases "scheduler s"; cases "alertmanager s") (auto simp: run_inv_def)
  with a Waiting show ?thesis by simp
next
  case (RunReturned r)
  then show ?thesis by simp
qed

lemma run_after_cancel_bounded:
  "run_inv s \<Longrightarrow> ctx_cancelled s \<Longrightarrow> run es s = Some s' \<Longrightarrow>
     length es + work_left s' \<le> work_left s"
proof (induction es arbitrary: s)
  case Nil
  then show ?case by simp
next
  case (Cons e es)
  then obtain s1 where s1: "step e s = Some s1" "run es s1 = Some s'"
    by (auto split: option.splits)
  from Cons.prems s1 have "run_inv s1" "ctx_cancelled s1" "work_left s1 < work_left s"
    by (auto dest: run_inv_step step_keeps_cancelled step_work_left)
  with Cons.IH[of s1] s1 show ?case by simp
qed

lemma work_left_le: "work_left s \<le> 6"
  by (cases "pc s") (simp_all add: work_left_def)

text \<open>
  C1. In every execution of \<open>Run\<close>, \<open>Warm()\<close> is called at most once, it has been called
  and has returned before the scheduler is started, and so before any tick is
  dispatched: a tick can only be dispatched from a state in which \<open>Warm()\<close> has
  completed, and every state with a dispatched tick is such a state.
\<close>

theorem warm_before_first_tick:
  "run es run_start = Some s \<Longrightarrow>
     warm_calls s \<le> 1
     \<and> (scheduler s \<noteq> NotStarted \<longrightarrow> warm_calls s = 1)
     \<and> (step SchedulerTick s \<noteq> None \<longrightarrow> warm_calls s = 1)
     \<and> (0 < ticks s \<longrightarrow> warm_calls s = 1)"
proof -
  assume "run es run_start = Some s"
  then have inv: "run_inv s" by (rule run_inv_reachable)
  then show ?thesis
    by (cases "pc s") (auto simp: run_inv_def split: if_splits)
qed

theorem warm_before_first_tick_witness:
  "run example_run run_start \<noteq> None
   \<and> ticks (the (run example_run run_start)) = 1
   \<and> warm_calls (the (run example_run run_start)) = 1
   \<and> run [SchedulerTick] run_start = None
   \<and> run [Statement, SchedulerTick] run_start = None"
  using warm_before_first_tick [of example_run "the (run example_run run_start)"]
  by (simp add: example_run_def run_start_def subCtx_done_def group_done_def)

text \<open>
  C6. \<open>Run\<close> returns only after both loops have returned: in every state in which
  \<open>Run\<close> has returned, the scheduler and the Alertmanager loop have returned, and the
  value returned is \<open>nil\<close> exactly when both returned \<open>nil\<close>. Cancelling \<open>ctx\<close> stops
  both: from then on the context of both loops is done, neither dispatches a tick or a
  sync, every step that can still be taken brings \<open>Run\<close> closer to its return (so at most
  six steps remain), and when no step is left \<open>Run\<close> has returned.
\<close>

theorem run_joins_both_loops:
  "run es run_start = Some s \<Longrightarrow>
     (\<forall>r. pc s = RunReturned r \<longrightarrow>
        has_returned (scheduler s) \<and> has_returned (alertmanager s)
        \<and> (r = None) = (scheduler s = Returned None \<and> alertmanager s = Returned None))
     \<and> (ctx_cancelled s \<longrightarrow>
          subCtx_done s
          \<and> step SchedulerTick s = None \<and> step AlertmanagerSync s = None
          \<and> (\<forall>e s'. step e s = Some s' \<longrightarrow> ctx_cancelled s' \<and> work_left s' < work_left s)
          \<and> (\<forall>es' s'. run es' s = Some s' \<longrightarrow> length es' + work_left s' \<le> work_left s)
          \<and> work_left s \<le> 6
          \<and> ((\<forall>e. step e s = None) \<longrightarrow>
               (\<exists>r. pc s = RunReturned r) \<and> has_returned (scheduler s)
               \<and> has_returned (alertmanager s)))"
proof -
  assume "run es run_start = Some s"
  then have inv: "run_inv s" by (rule run_inv_reachable)
  have returned: "has_returned (scheduler s) \<and> has_returned (alertmanager s)
        \<and> (r = None) = (scheduler s = Returned None \<and> alertmanager s = Returned None)"
    if "pc s = RunReturned r" for r
    using inv that
    by (cases "scheduler s"; cases "alertmanager s") (auto simp: run_inv_def image_iff)
  have cancelled: "subCtx_done s \<and> step SchedulerTick s = None \<and> step AlertmanagerSync s = None
          \<and> (\<forall>e s'. step e s = Some s' \<longrightarrow> ctx_cancelled s' \<and> work_left s' < work_left s)
          \<and> (\<forall>es' s'. run es' s = Some s' \<longrightarrow> length es' + work_left s' \<le> work_left s)
          \<and> work_left s \<le> 6
          \<and> ((\<forall>e. step e s = None) \<longrightarrow>
               (\<exists>r. pc s = RunReturned r) \<and> has_returned (scheduler s)
               \<and> has_returned (alertmanager s))"
    if c: "ctx_cancelled s"
  proof (intro conjI allI impI)
    show "subCtx_done s" using c by (simp add: subCtx_done_def)
    then show "step SchedulerTick s = None" "step AlertmanagerSync s = None" by simp_all
    show "work_left s \<le> 6" by (rule work_left_le)
  next
    fix e s' assume "step e s = Some s'"
    then show "ctx_cancelled s'" "work_left s' < work_left s"
      using inv c by (auto dest: step_keeps_cancelled step_work_left)
  next
    fix es' s' assume "run es' s = Some s'"
    then show "length es' + work_left s' \<le> work_left s"
      using inv c by (rule run_after_cancel_bounded[rotated 2])
  next
    assume stuck: "\<forall>e. step e s = None"
    from stuck_returned[OF inv stuck] show "\<exists>r. pc s = RunReturned r" .
    then obtain r where "pc s = RunReturned r" ..
    from returned[OF this] show "has_returned (scheduler s)" "has_returned (alertmanager s)"
      by simp_all
  qed
  from returned cancelled show ?thesis by blast
qed

theorem run_joins_both_loops_witness:
  "run example_run run_start \<noteq> None
   \<and> pc (the (run example_run run_start)) = RunReturned (Some (Err ''context canceled''))
   \<and> ctx_cancelled (the (run example_run run_start))
   \<and> scheduler (the (run example_run run_start)) = Returned None
   \<and> alertmanager (the (run example_run run_start)) = Returned (Some (Err ''context canceled''))
   \<and> run [Statement, Statement, Statement, SchedulerReturns None, Statement] run_start = None"
  using run_joins_both_loops [of example_run "the (run example_run run_start)"]
  by (simp add: example_run_def run_start_def subCtx_done_def group_done_def)

section \<open>Properties of the state machine\<close>

lemma transition_fanout:
  "transition r i v now = (i', f) \<Longrightarrow>
     f = (if state i' = Alerting \<and> state i \<noteq> Alerting then [Fires]
          else if state i = Alerting \<and> state i' = Normal then [Resolved] else [])"
  by (cases v; cases "state i"; cases "noDataPolicy r")
     (auto simp: enter_def refresh_def split: if_splits)

lemma transition_into_alerting:
  "transition r i v now = (i', f) \<Longrightarrow> state i' = Alerting \<Longrightarrow>
     state i = Pending \<or> state i = Alerting"
  by (cases v; cases "state i"; cases "noDataPolicy r")
     (auto simp: enter_def refresh_def split: if_splits)

text \<open>
  C2. Every step of the state machine invokes the notification fan-out exactly once
  when it crosses the boundary (into \<open>Alerting\<close> from \<open>Normal\<close> or \<open>Pending\<close>: fires;
  from \<open>Alerting\<close> to \<open>Normal\<close>: resolved) and not at all otherwise; in particular not
  for a Firing verdict on an instance that is already \<open>Alerting\<close>, which stays
  \<open>Alerting\<close>, and not when \<open>Pending\<close> stays \<open>Pending\<close>.
\<close>

theorem fanout_once_per_boundary_crossing:
  "transition r i v now = (i', f) \<Longrightarrow>
     length f = (if crosses (state i) (state i') then 1 else 0)
     \<and> (crosses (state i) (state i') \<longrightarrow>
          f = (if state i' = Alerting then [Fires] else [Resolved]))
     \<and> (state i = Alerting \<and> v = VFiring \<longrightarrow> state i' = Alerting \<and> f = [])
     \<and> (state i = Pending \<and> state i' = Pending \<longrightarrow> f = [])"
  using transition_fanout[of r i v now i' f] transition_into_alerting[of r i v now i' f]
  by (auto simp: crosses_def refresh_def split: if_splits)

theorem fanout_once_per_boundary_crossing_witness:
  "transition example_rule (pending_since 0) VFiring 10
     = (\<lparr>state = Alerting, entered = 10, lastEvaluation = 10\<rparr>, [Fires])
   \<and> crosses (state (pending_since 0)) Alerting
   \<and> snd (transition example_rule (pending_since 0) VFiring 3) = []
   \<and> snd (transition example_rule \<lparr>state = Alerting, entered = 10, lastEvaluation = 10\<rparr> VFiring 20) = []
   \<and> snd (transition example_rule \<lparr>state = Alerting, entered = 10, lastEvaluation = 10\<rparr> VNormal 20) = [Resolved]"
  using fanout_once_per_boundary_crossing
          [of example_rule "pending_since 0" VFiring 10
              "\<lparr>state = Alerting, entered = 10, lastEvaluation = 10\<rparr>" "[Fires]"]
  by (simp add: example_rule_def pending_since_def enter_def refresh_def crosses_def)

section \<open>Properties of the retry budget\<close>

lemma retry_made_upper: "snd (retry ex n made) \<le> made + n"
proof (induction n arbitrary: made)
  case 0 then show ?case by simp
next
  case (Suc n)
  from Suc.IH[of "Suc made"] show ?case by (simp split: option.splits)
qed

lemma retry_first_success:
  "1 \<le> k \<Longrightarrow> k \<le> n \<Longrightarrow> ex (made + k) = Some v \<Longrightarrow> \<forall>j. 1 \<le> j \<and> j < k \<longrightarrow> ex (made + j) = None \<Longrightarrow>
   retry ex n made = (Some v, made + k)"
proof (induction n arbitrary: made k)
  case 0
  then show ?case by simp
next
  case (Suc n)
  show ?case
  proof (cases "k = 1")
    case True
    with Suc.prems show ?thesis by simp
  next
    case False
    with Suc.prems have k: "1 \<le> k - 1" "k - 1 \<le> n" "Suc made + (k - 1) = made + k" by auto
    from Suc.prems False have first: "ex (Suc made) = None" using Suc.prems(4)[rule_format, of 1] by simp
    have later: "\<forall>j. 1 \<le> j \<and> j < k - 1 \<longrightarrow> ex (Suc made + j) = None"
    proof (intro allI impI)
      fix j assume "1 \<le> j \<and> j < k - 1"
      then have "1 \<le> Suc j \<and> Suc j < k" by auto
      with Suc.prems(4) have "ex (made + Suc j) = None" by blast
      then show "ex (Suc made + j) = None" by simp
    qed
    from Suc.IH[of "k - 1" "Suc made", OF k(1) k(2) _ later] Suc.prems(3) k(3)
    have "retry ex n (Suc made) = (Some v, made + k)" by simp
    with first show ?thesis by simp
  qed
qed

lemma retry_all_fail:
  "\<forall>j. 1 \<le> j \<and> j \<le> n \<longrightarrow> ex (made + j) = None \<Longrightarrow> retry ex n made = (None, made + n)"
proof (induction n arbitrary: made)
  case 0
  then show ?case by simp
next
  case (Suc n)
  from Suc.prems have first: "ex (Suc made) = None" using Suc.prems[rule_format, of 1] by simp
  have "\<forall>j. 1 \<le> j \<and> j \<le> n \<longrightarrow> ex (Suc made + j) = None"
  proof (intro allI impI)
    fix j assume "1 \<le> j \<and> j \<le> n"
    then have "1 \<le> Suc j \<and> Suc j \<le> Suc n" by auto
    with Suc.prems have "ex (made + Suc j) = None" by blast
    then show "ex (Suc made + j) = None" by simp
  qed
  from Suc.IH[OF this] first show ?case by simp
qed

text \<open>
  C4. An evaluation task makes at most \<open>budget\<close> attempts. If the first attempt that
  succeeds is attempt \<open>k\<close>, within the budget, the task yields that attempt's verdict
  after exactly \<open>k\<close> attempts; if every attempt within the budget fails it yields the
  Error verdict after exactly \<open>budget\<close> attempts. The budget of a scheduler configured
  with \<open>maxAttempts\<close> is 3. A tick yields one verdict for every rule dispatched, each the
  result of that rule's own task, whatever the other rules' executions do.
\<close>

theorem retry_budget:
  "snd (evaluation_task budget execute) \<le> budget
   \<and> (\<forall>k v. 1 \<le> k \<and> k \<le> budget \<and> execute k = Some v
             \<and> (\<forall>j. 1 \<le> j \<and> j < k \<longrightarrow> execute j = None)
          \<longrightarrow> evaluation_task budget execute = (v, k))
   \<and> ((\<forall>j. 1 \<le> j \<and> j \<le> budget \<longrightarrow> execute j = None)
          \<longrightarrow> evaluation_task budget execute = (VError, budget))
   \<and> (sch_MaxAttempts c = maxAttempts \<longrightarrow> attempt_budget c = 3)
   \<and> map fst (tick_verdicts budget executions uids) = uids
   \<and> (\<forall>uid \<in> set uids.
         (uid, fst (evaluation_task budget (executions uid)))
           \<in> set (tick_verdicts budget executions uids))"
proof (intro conjI allI impI ballI)
  have "snd (retry execute budget 0) \<le> 0 + budget" by (rule retry_made_upper)
  then show "snd (evaluation_task budget execute) \<le> budget"
    by (cases "retry execute budget 0") (auto simp: evaluation_task_def split: option.splits)
next
  fix k v
  assume a: "1 \<le> k \<and> k \<le> budget \<and> execute k = Some v
             \<and> (\<forall>j. 1 \<le> j \<and> j < k \<longrightarrow> execute j = None)"
  then have "retry execute budget 0 = (Some v, 0 + k)"
    by (intro retry_first_success) simp_all
  then show "evaluation_task budget execute = (v, k)" by (simp add: evaluation_task_def)
next
  assume "\<forall>j. 1 \<le> j \<and> j \<le> budget \<longrightarrow> execute j = None"
  then have "retry execute budget 0 = (None, 0 + budget)"
    by (intro retry_all_fail) simp
  then show "evaluation_task budget execute = (VError, budget)"
    by (simp add: evaluation_task_def)
next
  assume "sch_MaxAttempts c = maxAttempts"
  then show "attempt_budget c = 3" by (simp add: attempt_budget_def maxAttempts_def)
next
  show "map fst (tick_verdicts budget executions uids) = uids"
    by (simp add: tick_verdicts_def comp_def)
next
  fix uid assume "uid \<in> set uids"
  then show "(uid, fst (evaluation_task budget (executions uid)))
               \<in> set (tick_verdicts budget executions uids)"
    by (auto simp: tick_verdicts_def)
qed

theorem retry_budget_witness:
  "evaluation_task 3 third_time_lucky = (VFiring, 3)
   \<and> evaluation_task 3 always_failing = (VError, 3)
   \<and> third_time_lucky 1 = None \<and> third_time_lucky 2 = None \<and> third_time_lucky 3 = Some VFiring"
proof -
  have lucky: "1 \<le> (3::nat) \<and> (3::nat) \<le> 3 \<and> third_time_lucky 3 = Some VFiring
                 \<and> (\<forall>j. 1 \<le> j \<and> j < 3 \<longrightarrow> third_time_lucky j = None)"
    by (simp add: third_time_lucky_def)
  from retry_budget [of 3 third_time_lucky]
  have "1 \<le> (3::nat) \<and> (3::nat) \<le> 3 \<and> third_time_lucky 3 = Some VFiring
          \<and> (\<forall>j. 1 \<le> j \<and> j < 3 \<longrightarrow> third_time_lucky j = None)
        \<longrightarrow> evaluation_task 3 third_time_lucky = (VFiring, 3)"
    by blast
  with lucky have a: "evaluation_task 3 third_time_lucky = (VFiring, 3)" by blast
  have failing: "\<forall>j. 1 \<le> j \<and> j \<le> 3 \<longrightarrow> always_failing j = None"
    by (simp add: always_failing_def)
  from retry_budget [of 3 always_failing] failing
  have b: "evaluation_task 3 always_failing = (VError, 3)" by blast
  from a b show ?thesis by (simp add: third_time_lucky_def)
qed

section \<open>Properties of the running service\<close>










section \<open>Properties of the query hints\<close>

lemma match_simple_metric_iff:
  "match_simple_metric s \<longleftrightarrow> s \<noteq> [] \<and> (\<forall>c \<in> set s. is_word_char c)"
  by (cases s) (auto simp: match_simple_metric_def)

lemma hint_types_distinct:
  "js ''HISTOGRAM_QUANTILE'' \<noteq> js ''ADD_SUM''" "js ''APPLY_RATE'' \<noteq> js ''ADD_SUM''"
  "js ''EXPAND_RULES'' \<noteq> js ''ADD_SUM''" "js ''SAFE_INTERVAL'' \<noteq> js ''ADD_SUM''"
  by (simp_all add: js_def)

lemma histogram_hints_type:
  "h \<in> set (histogram_hints q) \<Longrightarrow> hint_type h = js ''HISTOGRAM_QUANTILE''"
  by (auto simp: histogram_hints_def split: if_splits)

lemma rate_hints_type:
  "rate_hints X q ds = Inr hs \<Longrightarrow> h \<in> set hs \<Longrightarrow> hint_type h = js ''APPLY_RATE''"
  by (auto simp: rate_hints_def then_do_def Let_def split: if_splits sum.splits prod.splits)

lemma rules_hints_type:
  "rules_hints X q ds = Inr hs \<Longrightarrow> h \<in> set hs \<Longrightarrow> hint_type h = js ''EXPAND_RULES''"
  by (auto simp: rules_hints_def then_do_def split: if_splits sum.splits option.splits)

lemma safe_interval_hints_type:
  "safe_interval_hints X p ds tr = Inr hs \<Longrightarrow> h \<in> set hs \<Longrightarrow> hint_type h = js ''SAFE_INTERVAL''"
  by (auto simp: safe_interval_hints_def then_do_def split: if_splits sum.splits option.splits)

lemma getQueryHints_Inr:
  "getQueryHints X p series ds tr = Inr hs \<Longrightarrow>
   \<exists>rate rules safe.
      rate_hints X (query_of p) ds = Inr rate \<and> rules_hints X (query_of p) ds = Inr rules
      \<and> safe_interval_hints X p ds tr = Inr safe
      \<and> hs = histogram_hints (query_of p) @ rate @ rules @ sum_hints (query_of p) series @ safe"
  by (auto simp: getQueryHints_def then_do_def Let_def split: sum.splits)

lemma getQueryHints_returns:
  "\<exists>hs. getQueryHints X p series None None = Inr hs"
  by (auto simp: getQueryHints_def then_do_def Let_def rate_hints_def rules_hints_def
        safe_interval_hints_def split: sum.splits)

text \<open>The hint of the sum block, when there is one.\<close>

lemma sum_hints_cases:
  "sum_hints q series =
     (if (\<exists>xs. series = Some xs \<and> 20 \<le> length xs) \<and> match_simple_metric (trim q)
      then [\<lparr>hint_type = js ''ADD_SUM'',
             hint_label = js ''Many time series results returned.'',
             hint_fix = Some \<lparr>fix_label = js ''Consider aggregating with sum().'',
                              fix_action = \<lparr>action_type = js ''ADD_SUM'', action_query = q,
                                            preventSubmit = Some True,
                                            action_mapping = None\<rparr>\<rparr>\<rparr>]
      else [])"
  by (simp add: sum_hints_def SUM_HINT_THRESHOLD_COUNT_def split: option.splits)

lemma add_sum_only_from_sum_hints:
  assumes "getQueryHints X p series ds tr = Inr hs"
  shows "filter (\<lambda>h. hint_type h = js ''ADD_SUM'') hs = sum_hints (query_of p) series"
proof -
  from getQueryHints_Inr[OF assms] obtain rate rules safe where
    r: "rate_hints X (query_of p) ds = Inr rate" "rules_hints X (query_of p) ds = Inr rules"
       "safe_interval_hints X p ds tr = Inr safe"
    and hs: "hs = histogram_hints (query_of p) @ rate @ rules @ sum_hints (query_of p) series @ safe"
    by blast
  have none: "filter (\<lambda>h. hint_type h = js ''ADD_SUM'') xs = []"
    if "\<And>h. h \<in> set xs \<Longrightarrow> hint_type h \<noteq> js ''ADD_SUM''" for xs :: "QueryHint list"
    using that by (simp add: filter_empty_conv)
  have 1: "filter (\<lambda>h. hint_type h = js ''ADD_SUM'') (histogram_hints (query_of p)) = []"
    by (rule none) (auto dest: histogram_hints_type simp: hint_types_distinct)
  have 2: "filter (\<lambda>h. hint_type h = js ''ADD_SUM'') rate = []"
    by (rule none) (auto dest: rate_hints_type[OF r(1)] simp: hint_types_distinct)
  have 3: "filter (\<lambda>h. hint_type h = js ''ADD_SUM'') rules = []"
    by (rule none) (auto dest: rules_hints_type[OF r(2)] simp: hint_types_distinct)
  have 4: "filter (\<lambda>h. hint_type h = js ''ADD_SUM'') safe = []"
    by (rule none) (auto dest: safe_interval_hints_type[OF r(3)] simp: hint_types_distinct)
  have 5: "filter (\<lambda>h. hint_type h = js ''ADD_SUM'') (sum_hints (query_of p) series)
             = sum_hints (query_of p) series"
    by (simp add: sum_hints_cases)
  show ?thesis unfolding hs by (simp only: filter_append 1 2 3 4 5 append_Nil append_Nil2)
qed

text \<open>
  C10. Called without data source and time range \<open>getQueryHints\<close> always returns; and
  whenever it returns, its result contains a hint of type \<open>ADD_SUM\<close> if and only if a
  series array of at least \<open>SUM_HINT_THRESHOLD_COUNT\<close> = 20 elements is supplied and the
  trimmed query expression is a non-empty string of word characters. There is at most
  one such hint, and it is the hint whose fix carries the query as given (untrimmed) and
  \<open>preventSubmit\<close> set.
\<close>

theorem add_sum_hint_iff:
  "SUM_HINT_THRESHOLD_COUNT = 20
   \<and> (\<exists>hints. getQueryHints X promQuery series None None = Inr hints)
   \<and> (\<forall>hints. getQueryHints X promQuery series datasource timeRange = Inr hints \<longrightarrow>
        (\<exists>h \<in> set hints. hint_type h = js ''ADD_SUM'')
          = ((\<exists>xs. series = Some xs \<and> SUM_HINT_THRESHOLD_COUNT \<le> length xs)
             \<and> trim (query_of promQuery) \<noteq> []
             \<and> (\<forall>c \<in> set (trim (query_of promQuery)). is_word_char c))
        \<and> length (filter (\<lambda>h. hint_type h = js ''ADD_SUM'') hints) \<le> 1
        \<and> (\<forall>h \<in> set hints. hint_type h = js ''ADD_SUM'' \<longrightarrow>
              h = \<lparr>hint_type = js ''ADD_SUM'',
                   hint_label = js ''Many time series results returned.'',
                   hint_fix = Some \<lparr>fix_label = js ''Consider aggregating with sum().'',
                                    fix_action = \<lparr>action_type = js ''ADD_SUM'',
                                                  action_query = query_of promQuery,
                                                  preventSubmit = Some True,
                                                  action_mapping = None\<rparr>\<rparr>\<rparr>))"
proof (intro conjI allI impI)
  show "SUM_HINT_THRESHOLD_COUNT = 20" by (simp add: SUM_HINT_THRESHOLD_COUNT_def)
  show "\<exists>hints. getQueryHints X promQuery series None None = Inr hints"
    by (rule getQueryHints_returns)
next
  fix hints
  assume r: "getQueryHints X promQuery series datasource timeRange = Inr hints"
  let ?sum = "\<lambda>h. hint_type h = js ''ADD_SUM''"
  note f = add_sum_only_from_sum_hints[OF r]
  have mem: "(h \<in> set hints \<and> ?sum h) = (h \<in> set (sum_hints (query_of promQuery) series))" for h
  proof -
    from f have "set (filter ?sum hints) = set (sum_hints (query_of promQuery) series)" by simp
    then show ?thesis by auto
  qed
  show "(\<exists>h \<in> set hints. ?sum h)
          = ((\<exists>xs. series = Some xs \<and> SUM_HINT_THRESHOLD_COUNT \<le> length xs)
             \<and> trim (query_of promQuery) \<noteq> []
             \<and> (\<forall>c \<in> set (trim (query_of promQuery)). is_word_char c))"
  proof -
    have "(\<exists>h \<in> set hints. ?sum h) = (sum_hints (query_of promQuery) series \<noteq> [])"
      using mem by (metis all_not_in_conv set_empty)
    also have "\<dots> = ((\<exists>xs. series = Some xs \<and> 20 \<le> length xs)
                      \<and> match_simple_metric (trim (query_of promQuery)))"
      by (simp add: sum_hints_cases)
    finally show ?thesis
      by (simp add: match_simple_metric_iff SUM_HINT_THRESHOLD_COUNT_def)
  qed
  show "length (filter ?sum hints) \<le> 1" unfolding f by (simp add: sum_hints_cases)
  show "\<forall>h \<in> set hints. ?sum h \<longrightarrow>
              h = \<lparr>hint_type = js ''ADD_SUM'',
                   hint_label = js ''Many time series results returned.'',
                   hint_fix = Some \<lparr>fix_label = js ''Consider aggregating with sum().'',
                                    fix_action = \<lparr>action_type = js ''ADD_SUM'',
                                                  action_query = query_of promQuery,
                                                  preventSubmit = Some True,
                                                  action_mapping = None\<rparr>\<rparr>\<rparr>"
  proof (intro ballI impI)
    fix h assume "h \<in> set hints" "?sum h"
    with mem have "h \<in> set (sum_hints (query_of promQuery) series)" by blast
    then show "h = \<lparr>hint_type = js ''ADD_SUM'',
                   hint_label = js ''Many time series results returned.'',
                   hint_fix = Some \<lparr>fix_label = js ''Consider aggregating with sum().'',
                                    fix_action = \<lparr>action_type = js ''ADD_SUM'',
                                                  action_query = query_of promQuery,
                                                  preventSubmit = Some True,
                                                  action_mapping = None\<rparr>\<rparr>\<rparr>"
      by (simp add: sum_hints_cases split: if_splits)
  qed
qed

theorem add_sum_hint_iff_witness:
  "map hint_type
     (case getQueryHints no_externals bare_query (Some (replicate 20 ()))
             (None :: (nat, unit) PrometheusDatasource option) None of
        Inl e \<Rightarrow> [] | Inr hints \<Rightarrow> hints) = [js ''ADD_SUM'']
   \<and> getQueryHints no_externals bare_query (Some (replicate 19 ()))
        (None :: (nat, unit) PrometheusDatasource option) None = Inr []
   \<and> trim (query_of bare_query) = js ''node_load1''"
proof -
  have t: "trim (query_of bare_query) = js ''node_load1''"
    by (simp add: bare_query_def query_of_def trim_def js_def is_trimmed_char_def)
  have q: "match_counter_name (query_of bare_query) = None"
    by (simp add: bare_query_def query_of_def js_def match_counter_name_def is_word_char_def
          is_counter_name_def ends_with_def)
  have i: "\<not> js_includes (js ''rate('') (query_of bare_query)"
          "\<not> js_includes (js ''increase('') (query_of bare_query)"
    by (simp_all add: bare_query_def query_of_def js_def)
  have m: "match_simple_metric (js ''node_load1'')" "\<not> match_histogram_metric (js ''node_load1'')"
    by (simp_all add: match_simple_metric_def match_histogram_metric_def ends_with_def js_def
          is_word_char_def)
  have a: "getQueryHints no_externals bare_query (Some (replicate 19 ()))
        (None :: (nat, unit) PrometheusDatasource option) None = Inr []"
    by (simp add: getQueryHints_def rate_hints_def rules_hints_def safe_interval_hints_def
          histogram_hints_def sum_hints_def then_do_def t q i m SUM_HINT_THRESHOLD_COUNT_def)
  have b: "map hint_type
     (case getQueryHints no_externals bare_query (Some (replicate 20 ()))
             (None :: (nat, unit) PrometheusDatasource option) None of
        Inl e \<Rightarrow> [] | Inr hints \<Rightarrow> hints) = [js ''ADD_SUM'']"
    by (simp add: getQueryHints_def rate_hints_def rules_hints_def safe_interval_hints_def
          histogram_hints_def sum_hints_def then_do_def t q i m SUM_HINT_THRESHOLD_COUNT_def)
  from a b t
    add_sum_hint_iff [of no_externals bare_query "Some (replicate 20 ())"
                         "None :: (nat, unit) PrometheusDatasource option" None]
  show ?thesis by simp
qed

end
